theory Spec2Isabelle
  imports Main
begin

section \<open>Enumerations for suit and rank\<close>

text \<open>
  \<^verbatim>\<open>class CardSuit(Enum)\<close> and \<^verbatim>\<open>class CardRank(Enum)\<close>.  An enumeration member has a
  \<^verbatim>\<open>name\<close>, a \<^verbatim>\<open>value\<close>, and the class iterates over its members in definition order.
  Two members are equal exactly when they are the same member.
\<close>

datatype CardSuit = CLUBS | DIAMONDS | HEARTS | SPADES

datatype CardRank = TWO | THREE | FOUR | FIVE | SIX | SEVEN | EIGHT | NINE | TEN
  | JACK | QUEEN | KING | ACE

fun CardSuit_value :: "CardSuit \<Rightarrow> int" where
  "CardSuit_value CLUBS = 1"
| "CardSuit_value DIAMONDS = 2"
| "CardSuit_value HEARTS = 3"
| "CardSuit_value SPADES = 4"

fun CardSuit_name :: "CardSuit \<Rightarrow> string" where
  "CardSuit_name CLUBS = ''CLUBS''"
| "CardSuit_name DIAMONDS = ''DIAMONDS''"
| "CardSuit_name HEARTS = ''HEARTS''"
| "CardSuit_name SPADES = ''SPADES''"

definition CardSuit_members :: "CardSuit list" where
  "CardSuit_members = [CLUBS, DIAMONDS, HEARTS, SPADES]"

fun CardRank_value :: "CardRank \<Rightarrow> int" where
  "CardRank_value TWO = 2"
| "CardRank_value THREE = 3"
| "CardRank_value FOUR = 4"
| "CardRank_value FIVE = 5"
| "CardRank_value SIX = 6"
| "CardRank_value SEVEN = 7"
| "CardRank_value EIGHT = 8"
| "CardRank_value NINE = 9"
| "CardRank_value TEN = 10"
| "CardRank_value JACK = 11"
| "CardRank_value QUEEN = 12"
| "CardRank_value KING = 13"
| "CardRank_value ACE = 14"

fun CardRank_name :: "CardRank \<Rightarrow> string" where
  "CardRank_name TWO = ''TWO''"
| "CardRank_name THREE = ''THREE''"
| "CardRank_name FOUR = ''FOUR''"
| "CardRank_name FIVE = ''FIVE''"
| "CardRank_name SIX = ''SIX''"
| "CardRank_name SEVEN = ''SEVEN''"
| "CardRank_name EIGHT = ''EIGHT''"
| "CardRank_name NINE = ''NINE''"
| "CardRank_name TEN = ''TEN''"
| "CardRank_name JACK = ''JACK''"
| "CardRank_name QUEEN = ''QUEEN''"
| "CardRank_name KING = ''KING''"
| "CardRank_name ACE = ''ACE''"

definition CardRank_members :: "CardRank list" where
  "CardRank_members =
     [TWO, THREE, FOUR, FIVE, SIX, SEVEN, EIGHT, NINE, TEN, JACK, QUEEN, KING, ACE]"

section \<open>Values, errors and list objects\<close>

text \<open>
  A card is the pair of its private fields \<^verbatim>\<open>_suit\<close> and \<^verbatim>\<open>_rank\<close>, read through the
  properties \<^verbatim>\<open>suit\<close> and \<^verbatim>\<open>rank\<close>.
\<close>

datatype Card = Card (suit: CardSuit) (rank: CardRank)

type_synonym addr = nat

text \<open>
  The Python values that the methods below receive or return: \<^verbatim>\<open>None\<close>, a card, or a
  reference to a list object.
\<close>

datatype pyval = PyNone | PyCard Card | PyList addr

datatype error = DeckCheatingError string | IndexError | StopIteration

text \<open>
  List objects are mutable and shared by reference, so they live in a store: the contents
  of the list at each address, and the next address not yet handed out.
\<close>

record heap =
  list_at :: "addr \<Rightarrow> Card list"
  fresh :: addr

definition list_new :: "Card list \<Rightarrow> heap \<Rightarrow> addr \<times> heap" where
  "list_new xs s = (fresh s, s\<lparr>list_at := (list_at s)(fresh s := xs), fresh := Suc (fresh s)\<rparr>)"

definition list_put :: "addr \<Rightarrow> Card list \<Rightarrow> heap \<Rightarrow> heap" where
  \<comment> \<open>an in-place mutation of the list object at \<open>a\<close>, leaving it with contents \<open>xs\<close>\<close>
  "list_put a xs s = s\<lparr>list_at := (list_at s)(a := xs)\<rparr>"

definition list_copy :: "addr \<Rightarrow> heap \<Rightarrow> addr \<times> heap" where
  \<comment> \<open>\<^verbatim>\<open>list.copy()\<close>: a new list object with the same elements\<close>
  "list_copy a s = list_new (list_at s a) s"

definition list_append :: "addr \<Rightarrow> Card \<Rightarrow> heap \<Rightarrow> heap" where
  "list_append a c s = list_put a (list_at s a @ [c]) s"

definition list_pop0 :: "addr \<Rightarrow> heap \<Rightarrow> (error + Card) \<times> heap" where
  \<comment> \<open>\<^verbatim>\<open>list.pop(0)\<close>: IndexError on an empty list\<close>
  "list_pop0 a s =
     (case list_at s a of
        [] \<Rightarrow> (Inl IndexError, s)
      | c # cs \<Rightarrow> (Inr c, list_put a cs s))"

definition list_getitem :: "Card list \<Rightarrow> int \<Rightarrow> error + Card" where
  \<comment> \<open>\<^verbatim>\<open>xs[index]\<close> for an integer index: a negative index counts from the back\<close>
  "list_getitem xs index =
     (if 0 \<le> index \<and> index < int (length xs) then Inr (xs ! nat index)
      else if index < 0 \<and> - int (length xs) \<le> index then Inr (xs ! nat (int (length xs) + index))
      else Inl IndexError)"

definition random_shuffle :: "(Card list \<Rightarrow> Card list) \<Rightarrow> addr \<Rightarrow> heap \<Rightarrow> heap" where
  \<comment> \<open>\<^verbatim>\<open>random.shuffle(xs)\<close>, in place; \<open>rnd\<close> is the rearrangement the generator picks\<close>
  "random_shuffle rnd a s = list_put a (rnd (list_at s a)) s"

section \<open>Card\<close>

subsection \<open>String formatting\<close>

definition ascii_uppercase :: string where
  "ascii_uppercase = ''ABCDEFGHIJKLMNOPQRSTUVWXYZ''"

definition ascii_lowercase :: string where
  "ascii_lowercase = ''abcdefghijklmnopqrstuvwxyz''"

definition isupper :: "char \<Rightarrow> bool" where
  "isupper c = (c \<in> set ascii_uppercase)"

definition islower :: "char \<Rightarrow> bool" where
  "islower c = (c \<in> set ascii_lowercase)"

definition to_lower :: "char \<Rightarrow> char" where
  "to_lower c = (case map_of (zip ascii_uppercase ascii_lowercase) c of Some l \<Rightarrow> l | None \<Rightarrow> c)"

definition to_upper :: "char \<Rightarrow> char" where
  "to_upper c = (case map_of (zip ascii_lowercase ascii_uppercase) c of Some u \<Rightarrow> u | None \<Rightarrow> c)"

text \<open>
  \<^verbatim>\<open>str.title()\<close> on ASCII text: a cased character that follows an uncased one (or starts
  the string) becomes upper case, a cased character that follows a cased one becomes lower
  case, every other character is kept.
\<close>

fun title_from :: "bool \<Rightarrow> string \<Rightarrow> string" where
  "title_from previous_is_cased [] = []"
| "title_from previous_is_cased (c # cs) =
     (if islower c then (if previous_is_cased then c else to_upper c) # title_from True cs
      else if isupper c then (if previous_is_cased then to_lower c else c) # title_from True cs
      else c # title_from False cs)"

definition str_title :: "string \<Rightarrow> string" where
  "str_title s = title_from False s"

definition get_display_name :: "Card \<Rightarrow> string" where
  "get_display_name self =
     str_title (CardRank_name (rank self)) @ '' of '' @ str_title (CardSuit_name (suit self))"

subsection \<open>Comparison and hashing\<close>

fun Card_eq :: "Card \<Rightarrow> pyval \<Rightarrow> bool" where
  "Card_eq self (PyCard other) = (rank self = rank other \<and> suit self = suit other)"
| "Card_eq self _ = False"

text \<open>
  Comparison of two pairs of integers, as Python compares tuples: the first position where
  the two differ decides; pairs that agree everywhere are not less than one another.
\<close>

definition tuple_lt :: "int \<times> int \<Rightarrow> int \<times> int \<Rightarrow> bool" where
  "tuple_lt a b =
     (if fst a \<noteq> fst b then fst a < fst b
      else if snd a \<noteq> snd b then snd a < snd b
      else False)"

definition tuple_gt :: "int \<times> int \<Rightarrow> int \<times> int \<Rightarrow> bool" where
  "tuple_gt a b =
     (if fst a \<noteq> fst b then fst a > fst b
      else if snd a \<noteq> snd b then snd a > snd b
      else False)"

text \<open>The result \<open>None\<close> stands for \<^verbatim>\<open>NotImplemented\<close>.\<close>

fun Card_lt :: "Card \<Rightarrow> pyval \<Rightarrow> bool option" where
  "Card_lt self (PyCard other) =
     Some (tuple_lt (CardRank_value (rank self), CardSuit_value (suit self))
                    (CardRank_value (rank other), CardSuit_value (suit other)))"
| "Card_lt self _ = None"

fun Card_gt :: "Card \<Rightarrow> pyval \<Rightarrow> bool option" where
  "Card_gt self (PyCard other) =
     Some (tuple_gt (CardRank_value (rank self), CardSuit_value (suit self))
                    (CardRank_value (rank other), CardSuit_value (suit other)))"
| "Card_gt self _ = None"

text \<open>
  \<^verbatim>\<open>hash((self._rank, self._suit))\<close>.  The built-in hash of a tuple of enumeration members
  is fixed within one run of the interpreter and differs between runs, so it is a
  parameter \<open>H\<close> of the model.
\<close>

type_synonym tuple_hash = "CardRank \<times> CardSuit \<Rightarrow> int"

definition Card_hash :: "tuple_hash \<Rightarrow> Card \<Rightarrow> int" where
  "Card_hash H self = H (rank self, suit self)"

section \<open>The decorator \<^verbatim>\<open>fair_deck\<close>\<close>

text \<open>
  \<^verbatim>\<open>set(result)\<close> inserts the elements one by one; an element is left out when the set
  already holds one with the same hash that compares equal to it.  Only the number of
  elements of the set is read afterwards.
\<close>

definition set_add :: "tuple_hash \<Rightarrow> Card list \<Rightarrow> Card \<Rightarrow> Card list" where
  "set_add H elems x =
     (if list_ex (\<lambda>y. Card_hash H y = Card_hash H x \<and> Card_eq y (PyCard x)) elems then elems
      else elems @ [x])"

definition py_set :: "tuple_hash \<Rightarrow> Card list \<Rightarrow> Card list" where
  "py_set H xs = foldl (set_add H) [] xs"

text \<open>
  The wrapper runs the wrapped function first, so the effect of the function on the store
  stays when the wrapper raises.  The check applies only to a result that is a list.
\<close>

definition fair_deck :: "tuple_hash \<Rightarrow> (heap \<Rightarrow> pyval \<times> heap) \<Rightarrow> heap \<Rightarrow> (error + pyval) \<times> heap" where
  "fair_deck H func s =
     (let (result, s') = func s in
      case result of
        PyList a \<Rightarrow>
          if length (list_at s' a) \<noteq> length (py_set H (list_at s' a))
          then (Inl (DeckCheatingError ''Duplicate cards detected!''), s')
          else (Inr result, s')
      | _ \<Rightarrow> (Inr result, s'))"

section \<open>Deck\<close>

text \<open>
  A deck object holds a reference \<^verbatim>\<open>_cards\<close> to its list of cards and the integer cursor
  \<^verbatim>\<open>_index\<close> of its iterator.
\<close>

record deck =
  d_cards :: addr
  d_index :: int

definition Deck_init :: "(Card list \<Rightarrow> Card list) \<Rightarrow> bool \<Rightarrow> heap \<Rightarrow> deck \<times> heap" where
  "Deck_init rnd shuffle s =
     (let (a, s1) = list_new [Card s r. s \<leftarrow> CardSuit_members, r \<leftarrow> CardRank_members] s;
          s2 = (if shuffle then random_shuffle rnd a s1 else s1)
      in (\<lparr>d_cards = a, d_index = 0\<rparr>, s2))"

definition cards_body :: "deck \<Rightarrow> heap \<Rightarrow> pyval \<times> heap" where
  \<comment> \<open>the undecorated property: \<^verbatim>\<open>return self._cards.copy()\<close>\<close>
  "cards_body self s = (let (a, s') = list_copy (d_cards self) s in (PyList a, s'))"

definition Deck_cards :: "tuple_hash \<Rightarrow> deck \<Rightarrow> heap \<Rightarrow> (error + pyval) \<times> heap" where
  "Deck_cards H self = fair_deck H (cards_body self)"

definition Deck_shuffle :: "(Card list \<Rightarrow> Card list) \<Rightarrow> deck \<Rightarrow> heap \<Rightarrow> heap" where
  "Deck_shuffle rnd self s = random_shuffle rnd (d_cards self) s"

definition Deck_draw :: "deck \<Rightarrow> heap \<Rightarrow> (error + pyval) \<times> heap" where
  "Deck_draw self s =
     (if list_at s (d_cards self) \<noteq> [] then
        (case list_pop0 (d_cards self) s of
           (Inl e, s') \<Rightarrow> (Inl e, s')
         | (Inr c, s') \<Rightarrow> (Inr (PyCard c), s'))
      else (Inr PyNone, s))"

definition add_card_body :: "deck \<Rightarrow> Card \<Rightarrow> heap \<Rightarrow> pyval \<times> heap" where
  \<comment> \<open>the undecorated method: \<^verbatim>\<open>self._cards.append(card)\<close>, with no return statement\<close>
  "add_card_body self the_card s = (PyNone, list_append (d_cards self) the_card s)"

definition Deck_add_card :: "tuple_hash \<Rightarrow> deck \<Rightarrow> Card \<Rightarrow> heap \<Rightarrow> (error + pyval) \<times> heap" where
  "Deck_add_card H self the_card = fair_deck H (add_card_body self the_card)"

definition Deck_len :: "deck \<Rightarrow> heap \<Rightarrow> nat" where
  "Deck_len self s = length (list_at s (d_cards self))"

definition Deck_getitem :: "deck \<Rightarrow> int \<Rightarrow> heap \<Rightarrow> error + Card" where
  "Deck_getitem self index s = list_getitem (list_at s (d_cards self)) index"

definition Deck_iter :: "deck \<Rightarrow> deck" where
  \<comment> \<open>resets the cursor and returns the deck itself as the iterator\<close>
  "Deck_iter self = self\<lparr>d_index := 0\<rparr>"

definition Deck_next :: "deck \<Rightarrow> heap \<Rightarrow> (error + Card) \<times> deck" where
  "Deck_next self s =
     (if d_index self \<ge> int (length (list_at s (d_cards self))) then (Inl StopIteration, self)
      else (case list_getitem (list_at s (d_cards self)) (d_index self) of
              Inl e \<Rightarrow> (Inl e, self)
            | Inr result \<Rightarrow> (Inr result, self\<lparr>d_index := d_index self + 1\<rparr>)))"

subsection \<open>Using a deck\<close>

text \<open>
  \<^verbatim>\<open>for c in deck: ...\<close> with a body that leaves the deck alone: the loop asks the deck for
  its iterator once, then calls \<^verbatim>\<open>__next__\<close> until \<^verbatim>\<open>StopIteration\<close> ends it.  The result is
  the exception that escaped the loop (if any), the cards the body saw, and the deck
  afterwards.
\<close>

function for_next :: "deck \<Rightarrow> heap \<Rightarrow> error option \<times> Card list \<times> deck" where
  "for_next it s =
     (let r = Deck_next it s in
      case fst r of
        Inl e \<Rightarrow> (if e = StopIteration then None else Some e, [], snd r)
      | Inr c \<Rightarrow>
          (let rest = for_next (snd r) s
           in (fst rest, c # fst (snd rest), snd (snd rest))))"
  by pat_completeness auto
termination
proof (relation "measure (\<lambda>(it, s). nat (int (length (list_at s (d_cards it))) - d_index it))")
  show "wf (measure (\<lambda>(it, s). nat (int (length (list_at s (d_cards it))) - d_index it)))"
    by simp
next
  fix it :: deck and s :: heap and r :: "(error + Card) \<times> deck" and c :: Card
  assume "r = Deck_next it s" and "fst r = Inr c"
  then show "((snd r, s), (it, s))
      \<in> measure (\<lambda>(it, s). nat (int (length (list_at s (d_cards it))) - d_index it))"
    by (auto simp: Deck_next_def split: if_splits sum.splits)
qed

declare for_next.simps [simp del]

definition for_in :: "deck \<Rightarrow> heap \<Rightarrow> error option \<times> Card list \<times> deck" where
  "for_in self s = for_next (Deck_iter self) s"

text \<open>\<open>draws n\<close>: the results of \<open>n\<close> successive calls of \<^verbatim>\<open>draw\<close>, and the store afterwards.\<close>

fun draws :: "nat \<Rightarrow> deck \<Rightarrow> heap \<Rightarrow> (error + pyval) list \<times> heap" where
  "draws 0 self s = ([], s)"
| "draws (Suc n) self s =
     (let (r, s') = Deck_draw self s; (rs, s'') = draws n self s' in (r # rs, s''))"

section \<open>Reference notions of the specification\<close>

text \<open>
  Title case as the specification words it, to compare \<open>str_title\<close> with: the first letter
  capitalised, the rest in lower case.
\<close>

definition spec_title_case :: "string \<Rightarrow> string" where
  "spec_title_case name = (case name of [] \<Rightarrow> [] | c # cs \<Rightarrow> to_upper c # map to_lower cs)"

text \<open>
  Canonical order as the specification words it: suit-major over Clubs, Diamonds, Hearts,
  Spades, and rank-minor over Two through Ace.
\<close>

definition spec_canonical_order :: "Card list" where
  "spec_canonical_order =
     concat (map (\<lambda>s. map (\<lambda>r. Card s r)
                   [TWO, THREE, FOUR, FIVE, SIX, SEVEN, EIGHT, NINE, TEN, JACK, QUEEN, KING, ACE])
             [CLUBS, DIAMONDS, HEARTS, SPADES])"

section \<open>Helpers for stating properties of decks\<close>

text \<open>The store of an interpreter that has created no list yet.\<close>

definition heap0 :: heap where
  "heap0 = \<lparr>list_at = (\<lambda>_. []), fresh = 0\<rparr>"

text \<open>The current contents of a deck, front first: the list that \<^verbatim>\<open>_cards\<close> refers to.\<close>

definition Deck_contents :: "deck \<Rightarrow> heap \<Rightarrow> Card list" where
  "Deck_contents self s = list_at s (d_cards self)"

section \<open>Properties of cards\<close>

lemma CardRank_value_inj: "CardRank_value a = CardRank_value b \<longleftrightarrow> a = b"
  by (cases a; cases b; simp)

lemma CardSuit_value_inj: "CardSuit_value a = CardSuit_value b \<longleftrightarrow> a = b"
  by (cases a; cases b; simp)

lemma Card_eq_iff: "Card_eq a (PyCard b) \<longleftrightarrow> a = b"
  by (cases a; cases b) auto

text \<open>
  Claim C6.  Equality of cards is reflexive, symmetric and transitive; two cards are equal
  exactly when their suits and their ranks agree; and equal cards have the same hash,
  whatever the interpreter's hash of a (rank, suit) tuple is.
\<close>

theorem Card_eq_equivalence_and_hash:
  "Card_eq a (PyCard a)
   \<and> (Card_eq a (PyCard b) \<longrightarrow> Card_eq b (PyCard a))
   \<and> (Card_eq a (PyCard b) \<and> Card_eq b (PyCard c) \<longrightarrow> Card_eq a (PyCard c))
   \<and> (Card_eq a (PyCard b) \<longleftrightarrow> suit a = suit b \<and> rank a = rank b)
   \<and> (Card_eq a (PyCard b) \<longrightarrow> Card_hash H a = Card_hash H b)"
  by (auto simp: Card_eq_iff Card_hash_def)

theorem Card_eq_equivalence_and_hash_witness:
  "Card_eq (Card HEARTS ACE) (PyCard (Card HEARTS ACE))
   \<and> Card_hash (\<lambda>(r, s). 31 * CardRank_value r + CardSuit_value s) (Card HEARTS ACE) = 437
   \<and> \<not> Card_eq (Card HEARTS ACE) (PyCard (Card SPADES ACE))"
  using Card_eq_equivalence_and_hash
    [of "Card HEARTS ACE" "Card HEARTS ACE" "Card HEARTS ACE"
        "\<lambda>(r, s). 31 * CardRank_value r + CardSuit_value s"]
  by (simp add: Card_hash_def)

lemma tuple_lt_lex: "tuple_lt (a, b) (c, d) \<longleftrightarrow> a < c \<or> (a = c \<and> b < d)"
  by (auto simp: tuple_lt_def)

lemma Card_lt_lex:
  "Card_lt a (PyCard b) =
     Some (CardRank_value (rank a) < CardRank_value (rank b)
           \<or> (CardRank_value (rank a) = CardRank_value (rank b)
               \<and> CardSuit_value (suit a) < CardSuit_value (suit b)))"
  by (simp add: tuple_lt_lex)

lemma Card_gt_lex:
  "Card_gt a (PyCard b) =
     Some (CardRank_value (rank b) < CardRank_value (rank a)
           \<or> (CardRank_value (rank b) = CardRank_value (rank a)
               \<and> CardSuit_value (suit b) < CardSuit_value (suit a)))"
  by (auto simp: tuple_gt_def)

lemma Card_lt_total:
  "Card_lt a (PyCard b) = Some True \<or> Card_eq a (PyCard b) \<or> Card_lt b (PyCard a) = Some True"
proof (cases "a = b")
  case True
  then show ?thesis by (simp add: Card_eq_iff)
next
  case False
  then have "rank a \<noteq> rank b \<or> suit a \<noteq> suit b"
    by (auto simp: Card.expand)
  then have "CardRank_value (rank a) \<noteq> CardRank_value (rank b)
      \<or> CardSuit_value (suit a) \<noteq> CardSuit_value (suit b)"
    by (simp add: CardRank_value_inj CardSuit_value_inj)
  then show ?thesis
    unfolding Card_lt_lex by auto
qed

text \<open>
  Claim C5.  \<^verbatim>\<open>a < b\<close> holds exactly when the pair (rank value, suit value) of \<open>a\<close> is
  lexicographically below that of \<open>b\<close>.  The relation is a strict total order: no card is
  below itself, it is transitive and asymmetric, and of two cards one is below the other
  or the two are equal.  \<^verbatim>\<open>a > b\<close> is \<^verbatim>\<open>b < a\<close>.  The rank dominates the suit: the Two of
  Hearts is below the Three of Clubs.
\<close>

theorem Card_lt_strict_total_order:
  "Card_lt a (PyCard b) =
     Some (CardRank_value (rank a) < CardRank_value (rank b)
           \<or> (CardRank_value (rank a) = CardRank_value (rank b)
               \<and> CardSuit_value (suit a) < CardSuit_value (suit b)))
   \<and> Card_lt a (PyCard a) = Some False
   \<and> (Card_lt a (PyCard b) = Some True \<and> Card_lt b (PyCard c) = Some True
        \<longrightarrow> Card_lt a (PyCard c) = Some True)
   \<and> (Card_lt a (PyCard b) = Some True \<longrightarrow> Card_lt b (PyCard a) = Some False)
   \<and> (Card_lt a (PyCard b) = Some True \<or> Card_eq a (PyCard b) \<or> Card_lt b (PyCard a) = Some True)
   \<and> Card_gt a (PyCard b) = Card_lt b (PyCard a)
   \<and> Card_lt (Card HEARTS TWO) (PyCard (Card CLUBS THREE)) = Some True"
proof (intro conjI)
  show "Card_lt a (PyCard b) = Some True \<and> Card_lt b (PyCard c) = Some True
        \<longrightarrow> Card_lt a (PyCard c) = Some True"
    unfolding Card_lt_lex by auto
  show "Card_lt a (PyCard b) = Some True \<longrightarrow> Card_lt b (PyCard a) = Some False"
    unfolding Card_lt_lex by auto
  show "Card_lt a (PyCard b) = Some True \<or> Card_eq a (PyCard b) \<or> Card_lt b (PyCard a) = Some True"
    by (rule Card_lt_total)
  show "Card_gt a (PyCard b) = Card_lt b (PyCard a)"
    unfolding Card_lt_lex Card_gt_lex by simp
qed (simp_all add: tuple_lt_lex)

theorem Card_lt_strict_total_order_witness:
  "Card_lt (Card SPADES TWO) (PyCard (Card CLUBS THREE)) = Some True
   \<and> Card_lt (Card CLUBS THREE) (PyCard (Card DIAMONDS THREE)) = Some True
   \<and> Card_lt (Card SPADES TWO) (PyCard (Card DIAMONDS THREE)) = Some True
   \<and> Card_lt (Card CLUBS THREE) (PyCard (Card SPADES TWO)) = Some False
   \<and> Card_gt (Card SPADES TWO) (PyCard (Card CLUBS THREE)) = Some False"
  using Card_lt_strict_total_order [of "Card SPADES TWO" "Card CLUBS THREE" "Card DIAMONDS THREE"]
  by (simp add: tuple_lt_def tuple_gt_def)

lemmas ascii_case_defs =
  str_title_def islower_def isupper_def to_lower_def to_upper_def
  ascii_uppercase_def ascii_lowercase_def

lemma str_title_CardSuit_name: "str_title (CardSuit_name s) = spec_title_case (CardSuit_name s)"
  by (cases s; simp add: spec_title_case_def ascii_case_defs)

lemma str_title_CardRank_name: "str_title (CardRank_name r) = spec_title_case (CardRank_name r)"
  by (cases r; simp add: spec_title_case_def ascii_case_defs)

text \<open>
  Claim C9.  The display name of the card of suit \<open>s\<close> and rank \<open>r\<close> is the name of the
  rank, the text \<^verbatim>\<open> of \<close> and the name of the suit, each name with its first letter in
  upper case and the rest in lower case; the Ace of Spades reads \<^verbatim>\<open>Ace of Spades\<close>.
\<close>

theorem get_display_name_title_case:
  "get_display_name (Card s r) =
     spec_title_case (CardRank_name r) @ '' of '' @ spec_title_case (CardSuit_name s)
   \<and> get_display_name (Card SPADES ACE) = ''Ace of Spades''"
proof
  show "get_display_name (Card s r) =
      spec_title_case (CardRank_name r) @ '' of '' @ spec_title_case (CardSuit_name s)"
    by (simp add: get_display_name_def str_title_CardSuit_name str_title_CardRank_name)
  show "get_display_name (Card SPADES ACE) = ''Ace of Spades''"
    by (simp add: get_display_name_def ascii_case_defs)
qed

theorem get_display_name_title_case_witness:
  "get_display_name (Card HEARTS TEN) = ''Ten of Hearts''
   \<and> get_display_name (Card DIAMONDS QUEEN) = ''Queen of Diamonds''"
  using get_display_name_title_case [of HEARTS TEN] get_display_name_title_case [of DIAMONDS QUEEN]
  by (simp add: spec_title_case_def to_lower_def to_upper_def ascii_uppercase_def ascii_lowercase_def)

section \<open>Properties of decks\<close>

subsection \<open>Construction\<close>

lemma Deck_init_unshuffled:
  "Deck_init rnd False s =
     (\<lparr>d_cards = fresh s, d_index = 0\<rparr>,
      s\<lparr>list_at := (list_at s)(fresh s := spec_canonical_order), fresh := Suc (fresh s)\<rparr>)"
  by (simp add: Deck_init_def list_new_def spec_canonical_order_def
      CardSuit_members_def CardRank_members_def)

lemma contents_Deck_init:
  "Deck_contents (fst (Deck_init rnd False s)) (snd (Deck_init rnd False s)) = spec_canonical_order"
  by (simp add: Deck_init_unshuffled Deck_contents_def)

lemma length_canonical: "length spec_canonical_order = 52"
  by (simp add: spec_canonical_order_def)

lemma distinct_canonical: "distinct spec_canonical_order"
  by (simp add: spec_canonical_order_def)

lemma set_canonical: "set spec_canonical_order = UNIV"
proof -
  have "Card s r \<in> set spec_canonical_order" for s r
    by (cases s; cases r; simp add: spec_canonical_order_def)
  then have "c \<in> set spec_canonical_order" for c
    by (cases c) simp
  then show ?thesis by blast
qed

lemma nth_canonical:
  "spec_canonical_order ! (13 * nat (CardSuit_value s - 1) + nat (CardRank_value r - 2)) = Card s r"
  by (cases s; cases r; simp add: spec_canonical_order_def)

text \<open>
  Claim C4.  A deck built with \<^verbatim>\<open>shuffle=False\<close> holds the canonical order: 52 cards, no card
  twice, every (suit, rank) combination among them, the card of suit \<open>su\<close> and rank \<open>r\<close> at
  position 13 * (position of the suit) + (position of the rank).  Construction has no
  failing branch: it returns a deck from every store.
\<close>

theorem Deck_init_canonical:
  "Deck_contents (fst (Deck_init rnd False s)) (snd (Deck_init rnd False s)) = spec_canonical_order
   \<and> Deck_len (fst (Deck_init rnd False s)) (snd (Deck_init rnd False s)) = 52
   \<and> distinct (Deck_contents (fst (Deck_init rnd False s)) (snd (Deck_init rnd False s)))
   \<and> Card su r \<in> set (Deck_contents (fst (Deck_init rnd False s)) (snd (Deck_init rnd False s)))
   \<and> Deck_getitem (fst (Deck_init rnd False s))
        (13 * (CardSuit_value su - 1) + (CardRank_value r - 2)) (snd (Deck_init rnd False s))
      = Inr (Card su r)"
proof -
  let ?d = "fst (Deck_init rnd False s)" and ?s = "snd (Deck_init rnd False s)"
  define i where "i = 13 * (CardSuit_value su - 1) + (CardRank_value r - 2)"
  have c: "Deck_contents ?d ?s = spec_canonical_order"
    by (rule contents_Deck_init)
  have len: "Deck_len ?d ?s = 52"
    using c by (simp add: Deck_len_def Deck_contents_def length_canonical)
  have rng: "0 \<le> i \<and> i < 52"
    unfolding i_def by (cases su; cases r; simp)
  have idx: "nat i = 13 * nat (CardSuit_value su - 1) + nat (CardRank_value r - 2)"
    unfolding i_def by (cases su; cases r; simp)
  have "Deck_getitem ?d i ?s = Inr (spec_canonical_order ! nat i)"
    using c rng by (simp add: Deck_getitem_def Deck_contents_def list_getitem_def length_canonical)
  also have "spec_canonical_order ! nat i = Card su r"
    unfolding idx by (rule nth_canonical)
  finally have get: "Deck_getitem ?d i ?s = Inr (Card su r)" .
  show ?thesis
    using c len get unfolding i_def by (simp add: distinct_canonical set_canonical)
qed

theorem Deck_init_canonical_witness:
  "Deck_getitem (fst (Deck_init (\<lambda>xs. xs) False heap0)) 37 (snd (Deck_init (\<lambda>xs. xs) False heap0))
     = Inr (Card HEARTS KING)
   \<and> Deck_len (fst (Deck_init (\<lambda>xs. xs) False heap0)) (snd (Deck_init (\<lambda>xs. xs) False heap0)) = 52"
  using Deck_init_canonical [of "\<lambda>xs. xs" heap0 HEARTS KING]
  by simp

subsection \<open>Drawing\<close>

lemma Deck_draw_front:
  "Deck_contents d s = c # cs \<Longrightarrow> Deck_draw d s = (Inr (PyCard c), list_put (d_cards d) cs s)"
  by (simp add: Deck_draw_def list_pop0_def Deck_contents_def)

lemma Deck_draw_empty: "Deck_contents d s = [] \<Longrightarrow> Deck_draw d s = (Inr PyNone, s)"
  by (simp add: Deck_draw_def Deck_contents_def)

lemma contents_list_put [simp]: "Deck_contents d (list_put (d_cards d) xs s) = xs"
  by (simp add: Deck_contents_def list_put_def)

lemma list_put_twice [simp]: "list_put a ys (list_put a xs s) = list_put a ys s"
  by (simp add: list_put_def)

lemma draws_all:
  "Deck_contents d s = xs \<Longrightarrow>
     fst (draws (length xs) d s) = map (\<lambda>c. Inr (PyCard c)) xs
     \<and> Deck_contents d (snd (draws (length xs) d s)) = []"
proof (induction xs arbitrary: s)
  case Nil
  then show ?case by simp
next
  case (Cons c cs)
  have step: "Deck_draw d s = (Inr (PyCard c), list_put (d_cards d) cs s)"
    using Cons.prems by (rule Deck_draw_front)
  have "Deck_contents d (list_put (d_cards d) cs s) = cs"
    by simp
  from Cons.IH [OF this] show ?case
    by (simp add: step split_beta)
qed

text \<open>
  Claim C3.  On a deck built with \<^verbatim>\<open>shuffle=False\<close>, 52 calls of \<^verbatim>\<open>draw\<close> return the cards
  the deck held at construction, front first: 52 cards, none twice, every (suit, rank)
  combination among them.  The 53rd call returns \<^verbatim>\<open>None\<close> and raises nothing.  On any deck,
  \<^verbatim>\<open>draw\<close> removes and returns the front card, and on an empty deck it returns \<^verbatim>\<open>None\<close> and
  leaves the store as it is.
\<close>

theorem draw_all_52_then_None:
  "fst (draws 52 (fst (Deck_init rnd False s0)) (snd (Deck_init rnd False s0)))
     = map (\<lambda>c. Inr (PyCard c))
         (Deck_contents (fst (Deck_init rnd False s0)) (snd (Deck_init rnd False s0)))
   \<and> length (Deck_contents (fst (Deck_init rnd False s0)) (snd (Deck_init rnd False s0))) = 52
   \<and> distinct (Deck_contents (fst (Deck_init rnd False s0)) (snd (Deck_init rnd False s0)))
   \<and> set (Deck_contents (fst (Deck_init rnd False s0)) (snd (Deck_init rnd False s0))) = UNIV
   \<and> fst (Deck_draw (fst (Deck_init rnd False s0))
             (snd (draws 52 (fst (Deck_init rnd False s0)) (snd (Deck_init rnd False s0)))))
       = Inr PyNone
   \<and> (Deck_contents d s = [] \<longrightarrow> Deck_draw d s = (Inr PyNone, s))
   \<and> (Deck_contents d s = c # cs \<longrightarrow>
        fst (Deck_draw d s) = Inr (PyCard c) \<and> Deck_contents d (snd (Deck_draw d s)) = cs)"
proof -
  let ?d = "fst (Deck_init rnd False s0)" and ?s = "snd (Deck_init rnd False s0)"
  have c: "Deck_contents ?d ?s = spec_canonical_order"
    by (rule contents_Deck_init)
  have "fst (draws (length spec_canonical_order) ?d ?s) = map (\<lambda>c. Inr (PyCard c)) spec_canonical_order
      \<and> Deck_contents ?d (snd (draws (length spec_canonical_order) ?d ?s)) = []"
    using c by (rule draws_all)
  then have all: "fst (draws 52 ?d ?s) = map (\<lambda>c. Inr (PyCard c)) spec_canonical_order"
    and after: "Deck_contents ?d (snd (draws 52 ?d ?s)) = []"
    by (simp_all add: length_canonical)
  have last: "fst (Deck_draw ?d (snd (draws 52 ?d ?s))) = Inr PyNone"
    using Deck_draw_empty [OF after] by simp
  have front: "Deck_contents d s = c # cs \<longrightarrow>
      fst (Deck_draw d s) = Inr (PyCard c) \<and> Deck_contents d (snd (Deck_draw d s)) = cs"
    by (simp add: Deck_draw_front)
  show ?thesis
    using all last front
    by (simp add: c length_canonical distinct_canonical set_canonical Deck_draw_empty)
qed

theorem draw_all_52_then_None_witness:
  "Deck_draw \<lparr>d_cards = 0, d_index = 0\<rparr> heap0 = (Inr PyNone, heap0)
   \<and> fst (Deck_draw \<lparr>d_cards = 0, d_index = 0\<rparr> (list_put 0 [Card CLUBS TWO, Card HEARTS ACE] heap0))
       = Inr (PyCard (Card CLUBS TWO))
   \<and> Deck_contents \<lparr>d_cards = 0, d_index = 0\<rparr>
        (snd (Deck_draw \<lparr>d_cards = 0, d_index = 0\<rparr> (list_put 0 [Card CLUBS TWO, Card HEARTS ACE] heap0)))
       = [Card HEARTS ACE]"
  using draw_all_52_then_None [of "\<lambda>xs. xs" heap0 "\<lparr>d_cards = 0, d_index = 0\<rparr>" heap0]
    draw_all_52_then_None [of "\<lambda>xs. xs" heap0 "\<lparr>d_cards = 0, d_index = 0\<rparr>"
      "list_put 0 [Card CLUBS TWO, Card HEARTS ACE] heap0" "Card CLUBS TWO" "[Card HEARTS ACE]"]
  by (simp add: Deck_contents_def heap0_def list_put_def)

subsection \<open>Indexed access\<close>

text \<open>
  Claim C7.  Indexed access at a position \<open>i\<close> with \<open>0 \<le> i < length\<close> returns the card at
  position \<open>i\<close>; it only reads the store, so no card is removed.  On a deck that is not
  empty, the card at position 0 is the one the next \<^verbatim>\<open>draw\<close> returns.  Indexed access at
  the position \<open>length\<close> raises \<^verbatim>\<open>IndexError\<close>.
\<close>

theorem Deck_getitem_in_range:
  "(0 \<le> i \<and> i < int (Deck_len d s) \<longrightarrow> Deck_getitem d i s = Inr (Deck_contents d s ! nat i))
   \<and> (0 < Deck_len d s \<longrightarrow>
        (\<exists>c. Deck_getitem d 0 s = Inr c \<and> fst (Deck_draw d s) = Inr (PyCard c)))
   \<and> Deck_getitem d (int (Deck_len d s)) s = Inl IndexError"
  by (cases "list_at s (d_cards d)")
     (auto simp: Deck_getitem_def Deck_len_def Deck_contents_def list_getitem_def
        Deck_draw_def list_pop0_def)

theorem Deck_getitem_in_range_witness:
  "Deck_getitem \<lparr>d_cards = 0, d_index = 0\<rparr> 1 (list_put 0 [Card CLUBS TWO, Card HEARTS ACE] heap0)
     = Inr (Card HEARTS ACE)
   \<and> Deck_getitem \<lparr>d_cards = 0, d_index = 0\<rparr> 0 (list_put 0 [Card CLUBS TWO, Card HEARTS ACE] heap0)
     = Inr (Card CLUBS TWO)
   \<and> fst (Deck_draw \<lparr>d_cards = 0, d_index = 0\<rparr> (list_put 0 [Card CLUBS TWO, Card HEARTS ACE] heap0))
     = Inr (PyCard (Card CLUBS TWO))
   \<and> Deck_getitem \<lparr>d_cards = 0, d_index = 0\<rparr> 2 (list_put 0 [Card CLUBS TWO, Card HEARTS ACE] heap0)
     = Inl IndexError"
  using Deck_getitem_in_range
    [of 1 "\<lparr>d_cards = 0, d_index = 0\<rparr>" "list_put 0 [Card CLUBS TWO, Card HEARTS ACE] heap0"]
  by (simp add: Deck_len_def Deck_contents_def Deck_getitem_def list_getitem_def list_put_def heap0_def)

text \<open>
  Claim C10.  On a deck of \<open>n > 0\<close> cards, indexed access with the negative index \<open>- k\<close>, for
  \<open>1 \<le> k \<le> n\<close>, raises nothing and returns the card at position \<open>n - k\<close>.
\<close>

theorem Deck_getitem_negative:
  "1 \<le> k \<Longrightarrow> k \<le> Deck_len d s \<Longrightarrow>
     Deck_getitem d (- int k) s = Inr (Deck_contents d s ! (Deck_len d s - k))"
  by (auto simp: Deck_getitem_def Deck_len_def Deck_contents_def list_getitem_def nat_diff_distrib')

theorem Deck_getitem_negative_witness:
  "Deck_getitem \<lparr>d_cards = 0, d_index = 0\<rparr> (- 1) (list_put 0 [Card CLUBS TWO, Card HEARTS ACE] heap0)
     = Inr (Card HEARTS ACE)
   \<and> Deck_getitem \<lparr>d_cards = 0, d_index = 0\<rparr> (- 2) (list_put 0 [Card CLUBS TWO, Card HEARTS ACE] heap0)
     = Inr (Card CLUBS TWO)"
  using Deck_getitem_negative
      [of 1 "\<lparr>d_cards = 0, d_index = 0\<rparr>" "list_put 0 [Card CLUBS TWO, Card HEARTS ACE] heap0"]
    Deck_getitem_negative
      [of 2 "\<lparr>d_cards = 0, d_index = 0\<rparr>" "list_put 0 [Card CLUBS TWO, Card HEARTS ACE] heap0"]
  by (simp add: Deck_len_def Deck_contents_def list_put_def heap0_def)

subsection \<open>Iteration\<close>

lemma Deck_next_stop:
  "int (length (Deck_contents it s)) \<le> d_index it \<Longrightarrow> Deck_next it s = (Inl StopIteration, it)"
  by (simp add: Deck_next_def Deck_contents_def)

lemma Deck_next_step:
  "0 \<le> d_index it \<Longrightarrow> d_index it < int (length (Deck_contents it s)) \<Longrightarrow>
     Deck_next it s = (Inr (Deck_contents it s ! nat (d_index it)), it\<lparr>d_index := d_index it + 1\<rparr>)"
  by (simp add: Deck_next_def Deck_contents_def list_getitem_def)

lemma for_next_drop:
  "0 \<le> d_index it \<Longrightarrow>
     for_next it s =
       (None, drop (nat (d_index it)) (Deck_contents it s),
        it\<lparr>d_index := max (d_index it) (int (length (Deck_contents it s)))\<rparr>)"
proof (induction it s rule: for_next.induct)
  case (1 it s)
  let ?xs = "Deck_contents it s"
  show ?case
  proof (cases "d_index it < int (length ?xs)")
    case False
    then have "Deck_next it s = (Inl StopIteration, it)"
      by (simp add: Deck_next_stop)
    moreover have "drop (nat (d_index it)) ?xs = []"
      using False by simp
    moreover have "max (d_index it) (int (length ?xs)) = d_index it"
      using False by simp
    ultimately show ?thesis
      by (subst for_next.simps) simp
  next
    case True
    let ?it' = "it\<lparr>d_index := d_index it + 1\<rparr>"
    have step: "Deck_next it s = (Inr (?xs ! nat (d_index it)), ?it')"
      using "1.prems" True by (rule Deck_next_step)
    have same: "Deck_contents ?it' s = ?xs"
      by (simp add: Deck_contents_def)
    have "for_next ?it' s =
        (None, drop (nat (d_index ?it')) (Deck_contents ?it' s),
         ?it'\<lparr>d_index := max (d_index ?it') (int (length (Deck_contents ?it' s)))\<rparr>)"
      using "1.IH" [OF refl, of "?xs ! nat (d_index it)"] "1.prems" by (simp add: step)
    then have rest: "for_next ?it' s =
        (None, drop (Suc (nat (d_index it))) ?xs, it\<lparr>d_index := int (length ?xs)\<rparr>)"
      using "1.prems" True by (simp add: same nat_add_distrib max_def)
    have "?xs ! nat (d_index it) # drop (Suc (nat (d_index it))) ?xs = drop (nat (d_index it)) ?xs"
      using "1.prems" True by (intro Cons_nth_drop_Suc) simp
    moreover have "max (d_index it) (int (length ?xs)) = int (length ?xs)"
      using True by simp
    ultimately show ?thesis
      by (subst for_next.simps) (simp add: step rest)
  qed
qed

text \<open>
  Claim C8.  A \<^verbatim>\<open>for\<close> loop over a deck whose body leaves the deck alone ends without an
  exception, visits the deck's contents at the start of the loop from the front to the
  back, hence as many cards as the deck's length, and removes no card: the loop reads the
  store only, and the deck refers to the same list afterwards.
\<close>

theorem for_in_visits_contents:
  "for_in d s = (None, Deck_contents d s, d\<lparr>d_index := int (Deck_len d s)\<rparr>)
   \<and> length (fst (snd (for_in d s))) = Deck_len d s
   \<and> Deck_contents (snd (snd (for_in d s))) s = Deck_contents d s"
proof -
  have "for_in d s = (None, Deck_contents d s, d\<lparr>d_index := int (Deck_len d s)\<rparr>)"
    using for_next_drop [of "Deck_iter d" s]
    by (simp add: for_in_def Deck_iter_def Deck_contents_def Deck_len_def)
  then show ?thesis
    by (simp add: Deck_contents_def Deck_len_def)
qed

theorem for_in_visits_contents_witness:
  "for_in \<lparr>d_cards = 0, d_index = 7\<rparr> (list_put 0 [Card CLUBS TWO, Card HEARTS ACE] heap0)
     = (None, [Card CLUBS TWO, Card HEARTS ACE], \<lparr>d_cards = 0, d_index = 2\<rparr>)"
  using for_in_visits_contents
    [of "\<lparr>d_cards = 0, d_index = 7\<rparr>" "list_put 0 [Card CLUBS TWO, Card HEARTS ACE] heap0"]
  by (simp add: Deck_contents_def Deck_len_def list_put_def heap0_def)

subsection \<open>The duplicate check\<close>

lemma set_add_member: "set_add H elems x = (if x \<in> set elems then elems else elems @ [x])"
  by (auto simp: set_add_def list_ex_iff Card_eq_iff simp del: Card_eq.simps)

lemma foldl_set_add:
  "distinct acc \<Longrightarrow>
     distinct (foldl (set_add H) acc xs) \<and> set (foldl (set_add H) acc xs) = set acc \<union> set xs"
proof (induction xs arbitrary: acc)
  case Nil
  then show ?case by simp
next
  case (Cons x xs)
  have "distinct (set_add H acc x)"
    using Cons.prems by (simp add: set_add_member)
  from Cons.IH [OF this] show ?case
    by (auto simp: set_add_member)
qed

lemma length_py_set: "length (py_set H xs) = card (set xs)"
proof -
  have "distinct (py_set H xs)" and "set (py_set H xs) = set xs"
    using foldl_set_add [of "[]" H xs] by (simp_all add: py_set_def)
  then show ?thesis
    by (metis distinct_card)
qed

lemma py_set_shorter: "length xs \<noteq> length (py_set H xs) \<longleftrightarrow> \<not> distinct xs"
  by (metis length_py_set card_distinct distinct_card)

lemma not_distinct_nth:
  "\<not> distinct xs \<longleftrightarrow> (\<exists>i j. i < j \<and> j < length xs \<and> xs ! i = xs ! j)"
proof
  assume "\<not> distinct xs"
  then obtain i j where "i < length xs" "j < length xs" "i \<noteq> j" "xs ! i = xs ! j"
    by (auto simp: distinct_conv_nth)
  then show "\<exists>i j. i < j \<and> j < length xs \<and> xs ! i = xs ! j"
    by (metis nat_neq_iff)
next
  assume "\<exists>i j. i < j \<and> j < length xs \<and> xs ! i = xs ! j"
  then show "\<not> distinct xs"
    by (auto simp: distinct_conv_nth) (metis less_trans nat_neq_iff)
qed

lemma Deck_cards_result:
  "Deck_cards H d s =
     (if distinct (Deck_contents d s) then Inr (PyList (fresh s))
      else Inl (DeckCheatingError ''Duplicate cards detected!''),
      s\<lparr>list_at := (list_at s)(fresh s := Deck_contents d s), fresh := Suc (fresh s)\<rparr>)"
  using py_set_shorter [of "Deck_contents d s" H]
  by (simp add: Deck_cards_def fair_deck_def cards_body_def list_copy_def list_new_def
      Deck_contents_def)

text \<open>
  Claim C2.  Reading \<^verbatim>\<open>cards\<close> raises exactly when two positions of the deck hold equal
  cards, and then the exception is \<^verbatim>\<open>DeckCheatingError\<close>.  Otherwise the result is a list
  object other than the deck's own, with the deck's contents in the deck's order; whatever
  is written into that list object afterwards, the deck's contents stay what they were.
  The deck's own list is one that was created earlier.
\<close>

theorem Deck_cards_snapshot:
  "d_cards d < fresh s \<Longrightarrow>
     ((\<exists>e. fst (Deck_cards H d s) = Inl e) \<longleftrightarrow>
        (\<exists>i j. i < j \<and> j < Deck_len d s
           \<and> Card_eq (Deck_contents d s ! i) (PyCard (Deck_contents d s ! j))))
     \<and> (\<forall>e. fst (Deck_cards H d s) = Inl e \<longrightarrow> (\<exists>msg. e = DeckCheatingError msg))
     \<and> ((\<forall>e. fst (Deck_cards H d s) \<noteq> Inl e) \<longrightarrow>
          (\<exists>a. fst (Deck_cards H d s) = Inr (PyList a)
             \<and> a \<noteq> d_cards d
             \<and> list_at (snd (Deck_cards H d s)) a = Deck_contents d s
             \<and> (\<forall>ys. Deck_contents d (list_put a ys (snd (Deck_cards H d s)))
                      = Deck_contents d s)))
     \<and> Deck_contents d (snd (Deck_cards H d s)) = Deck_contents d s"
proof -
  assume wf: "d_cards d < fresh s"
  have dup: "(\<exists>i j. i < j \<and> j < Deck_len d s
        \<and> Card_eq (Deck_contents d s ! i) (PyCard (Deck_contents d s ! j)))
      \<longleftrightarrow> \<not> distinct (Deck_contents d s)"
    by (simp add: not_distinct_nth Card_eq_iff Deck_len_def Deck_contents_def del: Card_eq.simps)
  show ?thesis
    unfolding dup using wf
    by (auto simp: Deck_cards_result Deck_contents_def list_put_def)
qed

theorem Deck_cards_snapshot_witness:
  "fst (Deck_cards (\<lambda>(r, s). 31 * CardRank_value r + CardSuit_value s)
         \<lparr>d_cards = 0, d_index = 0\<rparr>
         (snd (list_new [Card CLUBS TWO, Card HEARTS ACE] heap0)))
     = Inr (PyList 1)
   \<and> list_at (snd (Deck_cards (\<lambda>(r, s). 31 * CardRank_value r + CardSuit_value s)
         \<lparr>d_cards = 0, d_index = 0\<rparr>
         (snd (list_new [Card CLUBS TWO, Card HEARTS ACE] heap0)))) 1
     = [Card CLUBS TWO, Card HEARTS ACE]
   \<and> Deck_contents \<lparr>d_cards = 0, d_index = 0\<rparr>
        (list_put 1 []
          (snd (Deck_cards (\<lambda>(r, s). 31 * CardRank_value r + CardSuit_value s)
            \<lparr>d_cards = 0, d_index = 0\<rparr>
            (snd (list_new [Card CLUBS TWO, Card HEARTS ACE] heap0)))))
     = [Card CLUBS TWO, Card HEARTS ACE]
   \<and> fst (Deck_cards (\<lambda>(r, s). 31 * CardRank_value r + CardSuit_value s)
         \<lparr>d_cards = 0, d_index = 0\<rparr>
         (snd (list_new [Card HEARTS ACE, Card CLUBS TWO, Card HEARTS ACE] heap0)))
     = Inl (DeckCheatingError ''Duplicate cards detected!'')"
proof -
  have wf: "d_cards \<lparr>d_cards = 0, d_index = 0\<rparr>
      < fresh (snd (list_new [Card CLUBS TWO, Card HEARTS ACE] heap0))"
    by (simp add: list_new_def heap0_def)
  have wf': "d_cards \<lparr>d_cards = 0, d_index = 0\<rparr>
      < fresh (snd (list_new [Card HEARTS ACE, Card CLUBS TWO, Card HEARTS ACE] heap0))"
    by (simp add: list_new_def heap0_def)
  show ?thesis
    using Deck_cards_snapshot [OF wf, of "\<lambda>(r, s). 31 * CardRank_value r + CardSuit_value s"]
      Deck_cards_snapshot [OF wf', of "\<lambda>(r, s). 31 * CardRank_value r + CardSuit_value s"]
    by (simp add: Deck_cards_result Deck_contents_def list_new_def list_put_def heap0_def)
qed

lemma Deck_add_card_result:
  "Deck_add_card H d c s = (Inr PyNone, list_append (d_cards d) c s)"
  by (simp add: Deck_add_card_def fair_deck_def add_card_body_def)

text \<open>
  Claim C1, at the unshuffled deck of 52 cards and the Two of Clubs, which is the card at
  the front of that deck.  \<^verbatim>\<open>add_card\<close> returns \<^verbatim>\<open>None\<close> without an exception, and the deck
  then holds 53 cards with the Two of Clubs at its front and at its back.  The wrapped
  method returns \<^verbatim>\<open>None\<close>, which is not a list, so the wrapper's check does not run.
\<close>

theorem add_card_duplicate_not_rejected:
  "Deck_getitem (fst (Deck_init (\<lambda>xs. xs) False heap0)) 0 (snd (Deck_init (\<lambda>xs. xs) False heap0))
     = Inr (Card CLUBS TWO)
   \<and> fst (Deck_add_card (\<lambda>(r, s). 31 * CardRank_value r + CardSuit_value s)
        (fst (Deck_init (\<lambda>xs. xs) False heap0)) (Card CLUBS TWO)
        (snd (Deck_init (\<lambda>xs. xs) False heap0)))
     = Inr PyNone
   \<and> Deck_len (fst (Deck_init (\<lambda>xs. xs) False heap0))
        (snd (Deck_add_card (\<lambda>(r, s). 31 * CardRank_value r + CardSuit_value s)
          (fst (Deck_init (\<lambda>xs. xs) False heap0)) (Card CLUBS TWO)
          (snd (Deck_init (\<lambda>xs. xs) False heap0))))
     = 53
   \<and> Deck_getitem (fst (Deck_init (\<lambda>xs. xs) False heap0)) 52
        (snd (Deck_add_card (\<lambda>(r, s). 31 * CardRank_value r + CardSuit_value s)
          (fst (Deck_init (\<lambda>xs. xs) False heap0)) (Card CLUBS TWO)
          (snd (Deck_init (\<lambda>xs. xs) False heap0))))
     = Inr (Card CLUBS TWO)"
  by (simp add: Deck_add_card_result Deck_init_unshuffled Deck_getitem_def Deck_len_def
      list_getitem_def list_append_def list_put_def heap0_def length_canonical)
     (simp add: spec_canonical_order_def)

end
